theory Spec2Isabelle
  imports Main "HOL-Library.Word"
begin

section \<open>Decoded frames\<close>

text \<open>
  The receive loop of \<^verbatim>\<open>handleWebSocket\<close> (src/main.go) hands every frame to
  \<^verbatim>\<open>json.Unmarshal(msg, &data)\<close> with \<^verbatim>\<open>data\<close> of type
  \<^verbatim>\<open>map[string]interface{}\<close>. The decoder is a library; the model starts from its
  result: an error (\<open>Unparsable\<close>: malformed JSON, or JSON that is not an object), or the
  decoded object; the frame \<^verbatim>\<open>null\<close> decodes without error to the nil map, which reads
  like the empty one. A value of type \<^verbatim>\<open>interface{}\<close> is one of the dynamic types
  below; a JSON number is decoded as \<^verbatim>\<open>float64\<close> (the model carries the integral
  ones), and both a JSON \<^verbatim>\<open>null\<close> and a missing key read as the nil interface.
\<close>

datatype json =
    JNull
  | JBool bool
  | JNum int
  | JStr string
  | JArr "json list"
  | JObj "(string \<times> json) list"

type_synonym jmap = "(string \<times> json) list"

datatype unmarshal = Unparsable | Decoded jmap

definition index :: "jmap \<Rightarrow> string \<Rightarrow> json" where
  \<comment> \<open>\<^verbatim>\<open>m[k]\<close> on a Go map: the nil interface when the key is absent\<close>
  "index m k = (case map_of m k of None \<Rightarrow> JNull | Some v \<Rightarrow> v)"

text \<open>
  The unchecked type assertions \<^verbatim>\<open>x.(string)\<close>, \<^verbatim>\<open>x.(map[string]interface{})\<close> and
  \<^verbatim>\<open>x.(float64)\<close> panic when the dynamic type differs; the comma-ok forms used by the
  sibling variants return a flag instead.
\<close>

definition assertString :: "json \<Rightarrow> string + string" where
  "assertString v = (case v of JStr s \<Rightarrow> Inr s
     | _ \<Rightarrow> Inl ''interface conversion: interface {} is not string'')"

definition assertMap :: "json \<Rightarrow> string + jmap" where
  "assertMap v = (case v of JObj m \<Rightarrow> Inr m
     | _ \<Rightarrow> Inl ''interface conversion: interface {} is not map[string]interface {}'')"

definition assertFloat64 :: "json \<Rightarrow> string + int" where
  "assertFloat64 v = (case v of JNum x \<Rightarrow> Inr x
     | _ \<Rightarrow> Inl ''interface conversion: interface {} is not float64'')"

definition okString :: "json \<Rightarrow> string option" where
  \<comment> \<open>\<^verbatim>\<open>s, ok := x.(string)\<close>\<close>
  "okString v = (case v of JStr s \<Rightarrow> Some s | _ \<Rightarrow> None)"

definition okFloat64 :: "json \<Rightarrow> int option" where
  \<comment> \<open>\<^verbatim>\<open>f, ok := x.(float64)\<close>\<close>
  "okFloat64 v = (case v of JNum x \<Rightarrow> Some x | _ \<Rightarrow> None)"

section \<open>Sessions, registry and effects\<close>

type_synonym client_ref = nat
type_synonym conn_ref = nat
type_synonym pc_ref = nat

text \<open>
  \<^verbatim>\<open>type Client struct { conn; pc; lastActivity; mu }\<close>. Pointers are references,
  \<^verbatim>\<open>nil\<close> is \<open>None\<close>; time is counted in nanoseconds as \<^verbatim>\<open>time.Duration\<close>
  does. The state of the mutex \<^verbatim>\<open>mu\<close> is read off the trace of effects.
\<close>

record Client =
  conn :: "conn_ref option"
  pc :: "pc_ref option"
  lastActivity :: int

record ICECandidateInit =
  Candidate :: string
  SDPMid :: "string option"
  SDPMLineIndex :: "16 word option"
  UsernameFragment :: "string option"

datatype lock = Registry | ClientMu client_ref

datatype payload = PingMessage | JSONMessage json

datatype effect =
    Log string
  | Lock lock
  | Unlock lock
  | ConnUpgrade conn_ref
  | ConnWrite conn_ref payload bool
  | ConnClose conn_ref
  | PcNew pc_ref
  | PcSetRemoteDescription pc_ref string
  | PcAddICECandidate pc_ref ICECandidateInit
  | PcClose pc_ref
  | Panic string

text \<open>
  The process state: the global \<^verbatim>\<open>clients\<close> map (\<^verbatim>\<open>map[*Client]bool\<close>), the
  \<^verbatim>\<open>Client\<close> objects, the allocation counters, which goroutines of a session are
  still running (the receive loop; the monitor, with the \<^verbatim>\<open>conn\<close> its closure
  captured), the read deadline last set on each transport with
  \<^verbatim>\<open>conn.SetReadDeadline\<close>, the \<^verbatim>\<open>OnICECandidate\<close> callbacks registered with the
  negotiation library, and the effects performed so far, in order.
\<close>

record world =
  clients :: "client_ref \<rightharpoonup> bool"
  heap :: "client_ref \<Rightarrow> Client"
  next_client :: nat
  next_conn :: nat
  next_pc :: nat
  reading :: "client_ref \<Rightarrow> bool"
  monitoring :: "client_ref \<rightharpoonup> conn_ref"
  readDeadline :: "conn_ref \<rightharpoonup> int"
  onICECandidate :: "pc_ref \<rightharpoonup> client_ref"
  crashed :: bool
  trace :: "effect list"

datatype 'a res = Done 'a | Panicked string

definition emit :: "effect \<Rightarrow> world \<Rightarrow> world" where
  "emit e w = w\<lparr>trace := trace w @ [e]\<rparr>"

definition logPrintln :: "string \<Rightarrow> world \<Rightarrow> world" where
  "logPrintln s w = emit (Log s) w"

definition set_pc :: "client_ref \<Rightarrow> pc_ref option \<Rightarrow> world \<Rightarrow> world" where
  \<comment> \<open>\<^verbatim>\<open>client.pc = pc\<close>\<close>
  "set_pc c p w = w\<lparr>heap := (heap w)(c := (heap w c)\<lparr>pc := p\<rparr>)\<rparr>"

definition set_lastActivity :: "client_ref \<Rightarrow> int \<Rightarrow> world \<Rightarrow> world" where
  \<comment> \<open>\<^verbatim>\<open>client.lastActivity = time.Now()\<close>\<close>
  "set_lastActivity c t w = w\<lparr>heap := (heap w)(c := (heap w c)\<lparr>lastActivity := t\<rparr>)\<rparr>"

definition second :: int where
  "second = 1000000000"

definition setReadDeadline :: "conn_ref \<Rightarrow> int \<Rightarrow> world \<Rightarrow> world" where
  \<comment> \<open>\<^verbatim>\<open>conn.SetReadDeadline(t)\<close>\<close>
  "setReadDeadline n t w = w\<lparr>readDeadline := (readDeadline w)(n \<mapsto> t)\<rparr>"

section \<open>The operations of src/main.go\<close>

text \<open>
  \<^verbatim>\<open>sendJSON\<close>: lock \<^verbatim>\<open>c.mu\<close>, write, unlock (deferred, so also on a panic). The
  flag says whether \<^verbatim>\<open>WriteJSON\<close> returned no error; it is the transport's answer.
\<close>

definition sendJSON :: "client_ref \<Rightarrow> json \<Rightarrow> bool \<Rightarrow> world \<Rightarrow> bool res \<times> world" where
  "sendJSON c data ok w =
     (let w1 = emit (Lock (ClientMu c)) w in
      case conn (heap w1 c) of
        None \<Rightarrow> (Panicked ''nil pointer dereference'', emit (Unlock (ClientMu c)) w1)
      | Some n \<Rightarrow>
          (Done ok, emit (Unlock (ClientMu c)) (emit (ConnWrite n (JSONMessage data) ok) w1)))"

text \<open>
  \<^verbatim>\<open>cleanupClient\<close>: under the registry mutex, and only when the client is still a key
  of \<^verbatim>\<open>clients\<close>, close the peer connection and the transport (each when not nil) and
  delete the key.
\<close>

definition cleanupClient :: "client_ref \<Rightarrow> world \<Rightarrow> world" where
  "cleanupClient c w =
     (let w1 = emit (Lock Registry) w in
      if clients w1 c \<noteq> None then
        let w2 = (case pc (heap w1 c) of None \<Rightarrow> w1 | Some p \<Rightarrow> emit (PcClose p) w1);
            w3 = (case conn (heap w2 c) of None \<Rightarrow> w2 | Some n \<Rightarrow> emit (ConnClose n) w2);
            w4 = w3\<lparr>clients := (clients w3)(c := None)\<rparr>;
            w5 = logPrintln ''Client cleaned up'' w4
        in emit (Unlock Registry) w5
      else emit (Unlock Registry) w1)"

text \<open>
  What the negotiation library and the transport answer while one frame is handled:
  whether each call succeeds, and the SDP of the answer.
\<close>

record outcomes =
  newPeerConnection_ok :: bool
  createDataChannel_ok :: bool
  setRemoteDescription_ok :: bool
  createAnswer :: "string option"
  setLocalDescription_ok :: bool
  addICECandidate_ok :: bool
  writeJSON_ok :: bool

definition answerMessage :: "string \<Rightarrow> json" where
  "answerMessage s = JObj [(''type'', JStr ''answer''), (''sdp'', JStr s)]"

definition iceMessage :: "json \<Rightarrow> json" where
  "iceMessage cand = JObj [(''type'', JStr ''ice''), (''candidate'', cand)]"

definition handleOffer :: "client_ref \<Rightarrow> string \<Rightarrow> outcomes \<Rightarrow> world \<Rightarrow> unit res \<times> world" where
  "handleOffer c sdp env w =
     (let w0 = logPrintln ''Received offer, creating PeerConnection'' w in
      if \<not> newPeerConnection_ok env then (Done (), logPrintln ''PeerConnection error:'' w0)
      else
        let p = next_pc w0;
            w1 = emit (PcNew p) (w0\<lparr>next_pc := Suc p\<rparr>);
            w2 = set_pc c (Some p) w1;
            w3 = w2\<lparr>onICECandidate := (onICECandidate w2)(p \<mapsto> c)\<rparr>;
            w4 = (if createDataChannel_ok env then w3 else logPrintln ''DataChannel error:'' w3);
            w5 = emit (PcSetRemoteDescription p sdp) w4
        in
          if \<not> setRemoteDescription_ok env
          then (Done (), logPrintln ''SetRemoteDescription error:'' w5)
          else (case createAnswer env of
            None \<Rightarrow> (Done (), logPrintln ''CreateAnswer error:'' w5)
          | Some answer \<Rightarrow>
              if \<not> setLocalDescription_ok env
              then (Done (), logPrintln ''SetLocalDescription error:'' w5)
              else (case sendJSON c (answerMessage answer) (writeJSON_ok env) w5 of
                (r, w6) \<Rightarrow>
                  (case r of
                     Panicked m \<Rightarrow> (Panicked m, w6)
                   | Done sent \<Rightarrow>
                       if sent then (Done (), w6)
                       else (Done (), logPrintln ''Send answer error:'' w6)))))"

text \<open>
  \<^verbatim>\<open>handleICE\<close> of src/main.go: after the nil check, the four fields of the literal are
  read in order, each with an unchecked assertion.
\<close>

definition handleICE :: "client_ref \<Rightarrow> jmap \<Rightarrow> outcomes \<Rightarrow> world \<Rightarrow> unit res \<times> world" where
  "handleICE c candidate env w =
     (case pc (heap w c) of
        None \<Rightarrow> (Done (), w)
      | Some p \<Rightarrow>
         (case assertString (index candidate ''candidate'') of
            Inl m \<Rightarrow> (Panicked m, w)
          | Inr cand \<Rightarrow>
         (case assertString (index candidate ''sdpMid'') of
            Inl m \<Rightarrow> (Panicked m, w)
          | Inr mid \<Rightarrow>
         (case assertFloat64 (index candidate ''sdpMLineIndex'') of
            Inl m \<Rightarrow> (Panicked m, w)
          | Inr idx \<Rightarrow>
         (case assertString (index candidate ''usernameFragment'') of
            Inl m \<Rightarrow> (Panicked m, w)
          | Inr ufrag \<Rightarrow>
              let iceCandidate = \<lparr>Candidate = cand, SDPMid = Some mid,
                                  SDPMLineIndex = Some (word_of_int idx),
                                  UsernameFragment = Some ufrag\<rparr>;
                  w1 = emit (PcAddICECandidate p iceCandidate) w
              in if addICECandidate_ok env then (Done (), w1)
                 else (Done (), logPrintln ''AddICECandidate error:'' w1))))))"

text \<open>
  \<^verbatim>\<open>handleICE\<close> as the sibling variants have it (src/unnamed/part_001, lines 176-196):
  only \<^verbatim>\<open>candidate\<close> is asserted; the optional fields are read with the comma-ok form.
\<close>

definition handleICE_part_001 :: "client_ref \<Rightarrow> jmap \<Rightarrow> outcomes \<Rightarrow> world \<Rightarrow> unit res \<times> world" where
  "handleICE_part_001 c candidate env w =
     (case pc (heap w c) of
        None \<Rightarrow> (Done (), w)
      | Some p \<Rightarrow>
         (case assertString (index candidate ''candidate'') of
            Inl m \<Rightarrow> (Panicked m, w)
          | Inr cand \<Rightarrow>
              let iceCandidate = \<lparr>Candidate = cand,
                                  SDPMid = okString (index candidate ''sdpMid''),
                                  SDPMLineIndex =
                                    map_option word_of_int (okFloat64 (index candidate ''sdpMLineIndex'')),
                                  UsernameFragment = None\<rparr>;
                  w1 = emit (PcAddICECandidate p iceCandidate) w
              in if addICECandidate_ok env then (Done (), w1)
                 else (Done (), logPrintln ''AddICECandidate error:'' w1)))"

text \<open>
  The \<^verbatim>\<open>switch data["type"]\<close> of the receive loop. A case matches when the value is
  the string itself; \<^verbatim>\<open>data["sdp"].(string)\<close> and
  \<^verbatim>\<open>data["candidate"].(map[string]interface{})\<close> are unchecked assertions, evaluated
  before the handler is called.
\<close>

definition dispatch :: "client_ref \<Rightarrow> jmap \<Rightarrow> outcomes \<Rightarrow> world \<Rightarrow> unit res \<times> world" where
  "dispatch c data env w =
     (if index data ''type'' = JStr ''offer'' then
        (case assertString (index data ''sdp'') of
           Inl m \<Rightarrow> (Panicked m, w)
         | Inr sdp \<Rightarrow> handleOffer c sdp env w)
      else if index data ''type'' = JStr ''ice'' then
        (case assertMap (index data ''candidate'') of
           Inl m \<Rightarrow> (Panicked m, w)
         | Inr candidate \<Rightarrow> handleICE c candidate env w)
      else (Done (), w))"

text \<open>
  One pass of the receive loop: what \<^verbatim>\<open>conn.ReadMessage\<close> returned (an error, or a
  frame at a time, with its decoding and the outcomes of the calls its handling makes).
\<close>

datatype input = ReadError | Message int unmarshal outcomes

datatype status = Continue | Return | Panicking string

definition iteration :: "client_ref \<Rightarrow> input \<Rightarrow> world \<Rightarrow> status \<times> world" where
  "iteration c inp w =
     (case inp of
        ReadError \<Rightarrow> (Return, logPrintln ''Read error:'' w)
      | Message now fr env \<Rightarrow>
          let w1 = set_lastActivity c now w in
          (case fr of
             Unparsable \<Rightarrow> (Continue, logPrintln ''JSON unmarshal error:'' w1)
           | Decoded data \<Rightarrow>
               (case dispatch c data env w1 of
                  (r, w2) \<Rightarrow>
                    (case r of Done u \<Rightarrow> (Continue, w2) | Panicked m \<Rightarrow> (Panicking m, w2)))))"

definition handler_exit :: "client_ref \<Rightarrow> world \<Rightarrow> world" where
  \<comment> \<open>leaving \<^verbatim>\<open>handleWebSocket\<close>: \<^verbatim>\<open>defer cleanupClient(client)\<close>\<close>
  "handler_exit c w = cleanupClient c (w\<lparr>reading := (reading w)(c := False)\<rparr>)"

text \<open>
  One tick of the monitor goroutine (lines 69-79); \<^verbatim>\<open>conn\<close> is the variable its
  closure captured. The result says whether the loop goes on.
\<close>

definition tick :: "client_ref \<Rightarrow> conn_ref \<Rightarrow> int \<Rightarrow> bool \<Rightarrow> world \<Rightarrow> bool \<times> world" where
  "tick c n now ping_ok w =
     (if now - lastActivity (heap w c) > 45 * second then
        (False, cleanupClient c (logPrintln ''Connection timeout, closing...'' w))
      else
        let w1 = emit (ConnWrite n PingMessage ping_ok) w in
        if ping_ok then (True, w1) else (False, logPrintln ''Ping error:'' w1))"

text \<open>
  The monitor goroutine on its ticker's schedule, the session otherwise idle: the ticker
  was created (or ticked last) at \<open>t\<close> and ticks every 30 seconds; one flag per tick
  says whether that ping could be written. The list is the ticks that have come so far.
\<close>

fun monitor :: "client_ref \<Rightarrow> conn_ref \<Rightarrow> int \<Rightarrow> bool list \<Rightarrow> world \<Rightarrow> bool \<times> world" where
  "monitor c n t [] w = (True, w)"
| "monitor c n t (ok # oks) w =
     (case tick c n (t + 30 * second) ok w of
        (go, w1) \<Rightarrow> if go then monitor c n (t + 30 * second) oks w1 else (False, w1))"

text \<open>
  The pong handler installed by \<^verbatim>\<open>handleWebSocket\<close> (lines 57-61): it records the
  activity and renews the read deadline of \<^verbatim>\<open>conn\<close>, the variable its closure captured.
\<close>

definition pongHandler :: "client_ref \<Rightarrow> conn_ref \<Rightarrow> int \<Rightarrow> world \<Rightarrow> world" where
  "pongHandler c n now w = setReadDeadline n (now + 60 * second) (set_lastActivity c now w)"

definition candidateProduced :: "client_ref \<Rightarrow> json option \<Rightarrow> bool \<Rightarrow> world \<Rightarrow> unit res \<times> world" where
  \<comment> \<open>the \<^verbatim>\<open>OnICECandidate\<close> callback registered by \<^verbatim>\<open>handleOffer\<close>\<close>
  "candidateProduced c cand ok w =
     (case cand of
        None \<Rightarrow> (Done (), w)
      | Some j \<Rightarrow>
          (case sendJSON c (iceMessage j) ok w of
             (r, w1) \<Rightarrow>
               (case r of
                  Panicked m \<Rightarrow> (Panicked m, w1)
                | Done sent \<Rightarrow>
                    if sent then (Done (), w1)
                    else (Done (), logPrintln ''Write ICE candidate error:'' w1))))"

text \<open>
  The start of \<^verbatim>\<open>handleWebSocket\<close>: upgrade, create the client, register it under
  the registry mutex, set the read deadline 60 seconds ahead, start the monitor, enter the
  receive loop.
\<close>

definition connect :: "int \<Rightarrow> bool \<Rightarrow> world \<Rightarrow> world" where
  "connect now ok w =
     (if \<not> ok then logPrintln ''WebSocket upgrade error:'' w
      else
        let n = next_conn w;
            c = next_client w;
            w1 = emit (ConnUpgrade n) (w\<lparr>next_conn := Suc n\<rparr>);
            w2 = logPrintln ''New WebSocket connection established'' w1;
            w3 = w2\<lparr>heap := (heap w2)(c := \<lparr>conn = Some n, pc = None, lastActivity = now\<rparr>),
                    next_client := Suc c\<rparr>;
            w4 = emit (Lock Registry) w3;
            w5 = w4\<lparr>clients := (clients w4)(c \<mapsto> True)\<rparr>;
            w6 = emit (Unlock Registry) w5;
            w7 = setReadDeadline n (now + 60 * second) w6
        in w7\<lparr>monitoring := (monitoring w7)(c \<mapsto> n), reading := (reading w7)(c := True)\<rparr>)"

section \<open>The process as a transition system\<close>

text \<open>
  The goroutines interleave at the grain of these events: a request on \<^verbatim>\<open>/ws\<close>, one
  pass of a session's receive loop, one tick of its monitor, a pong, a candidate produced
  by the negotiation library, and the read deadline of a session's transport passing while
  \<^verbatim>\<open>ReadMessage\<close> is blocked, which makes it return a timeout error. A panic in the
  handler runs the deferred cleanup and is recovered by the HTTP server; a panic in a
  callback of the library ends the process. In the pong handler \<^verbatim>\<open>conn\<close> is the
  transport the client was created with; nothing reassigns \<^verbatim>\<open>client.conn\<close>.
\<close>

datatype event =
    Upgrade int bool
  | Receive client_ref input
  | Tick client_ref int bool
  | Pong client_ref int
  | IceCandidate pc_ref "json option" bool
  | ReadTimeout client_ref int

definition receive :: "client_ref \<Rightarrow> input \<Rightarrow> world \<Rightarrow> world" where
  \<comment> \<open>one pass of the receive loop and, when it leaves the loop, the handler's exit\<close>
  "receive c inp w =
     (case iteration c inp w of
        (st, w1) \<Rightarrow>
          (case st of
             Continue \<Rightarrow> w1
           | Return \<Rightarrow> handler_exit c w1
           | Panicking m \<Rightarrow> emit (Panic m) (handler_exit c w1)))"

definition expired :: "world \<Rightarrow> client_ref \<Rightarrow> int \<Rightarrow> bool" where
  \<comment> \<open>the read deadline of the client's transport is not after \<open>now\<close>\<close>
  "expired w c now =
     (case conn (heap w c) of
        None \<Rightarrow> False
      | Some n \<Rightarrow> (case readDeadline w n of None \<Rightarrow> False | Some d \<Rightarrow> d \<le> now))"

definition step :: "world \<Rightarrow> event \<Rightarrow> world" where
  "step w ev =
     (if crashed w then w
      else case ev of
        Upgrade now ok \<Rightarrow> connect now ok w
      | Receive c inp \<Rightarrow>
          if \<not> reading w c then w else receive c inp w
      | Tick c now ok \<Rightarrow>
          (case monitoring w c of
             None \<Rightarrow> w
           | Some n \<Rightarrow>
               (case tick c n now ok w of
                  (go, w1) \<Rightarrow>
                    if go then w1 else w1\<lparr>monitoring := (monitoring w1)(c := None)\<rparr>))
      | Pong c now \<Rightarrow>
          if \<not> reading w c then w
          else (case conn (heap w c) of None \<Rightarrow> w | Some n \<Rightarrow> pongHandler c n now w)
      | IceCandidate p cand ok \<Rightarrow>
          (case onICECandidate w p of
             None \<Rightarrow> w
           | Some c \<Rightarrow>
               (case candidateProduced c cand ok w of
                  (r, w1) \<Rightarrow>
                    (case r of
                       Done u \<Rightarrow> w1
                     | Panicked m \<Rightarrow> (emit (Panic m) w1)\<lparr>crashed := True\<rparr>)))
      | ReadTimeout c now \<Rightarrow>
          if reading w c \<and> expired w c now then receive c ReadError w else w)"

definition run :: "world \<Rightarrow> event list \<Rightarrow> world" where
  "run w evs = foldl step w evs"

definition init :: world where
  "init = \<lparr>clients = Map.empty,
           heap = (\<lambda>c. \<lparr>conn = None, pc = None, lastActivity = 0\<rparr>),
           next_client = 0, next_conn = 0, next_pc = 0,
           reading = (\<lambda>c. False), monitoring = Map.empty, readDeadline = Map.empty,
           onICECandidate = Map.empty, crashed = False, trace = []\<rparr>"

section \<open>Derived notions\<close>

text \<open>
  The state \<^verbatim>\<open>handleOffer\<close> has reached when \<^verbatim>\<open>SetRemoteDescription\<close> has been
  called on a newly created peer connection: the handle is stored in the client and its
  candidate callback is registered.
\<close>

definition offer_prefix :: "client_ref \<Rightarrow> string \<Rightarrow> outcomes \<Rightarrow> world \<Rightarrow> world" where
  "offer_prefix c sdp env w =
     (let w0 = logPrintln ''Received offer, creating PeerConnection'' w;
          p = next_pc w0;
          w1 = emit (PcNew p) (w0\<lparr>next_pc := Suc p\<rparr>);
          w2 = set_pc c (Some p) w1;
          w3 = w2\<lparr>onICECandidate := (onICECandidate w2)(p \<mapsto> c)\<rparr>;
          w4 = (if createDataChannel_ok env then w3 else logPrintln ''DataChannel error:'' w3)
      in emit (PcSetRemoteDescription p sdp) w4)"

text \<open>
  Lock discipline on a trace: every write to transport \<open>n\<close> happens while the mutex
  \<^verbatim>\<open>mu\<close> of client \<open>c\<close> is held (\<open>held\<close> is its state before the trace).
\<close>

fun guarded :: "client_ref \<Rightarrow> conn_ref \<Rightarrow> bool \<Rightarrow> effect list \<Rightarrow> bool" where
  "guarded c n held [] = True"
| "guarded c n held (Lock l # es) = guarded c n (if l = ClientMu c then True else held) es"
| "guarded c n held (Unlock l # es) = guarded c n (if l = ClientMu c then False else held) es"
| "guarded c n held (ConnWrite n' m ok # es) =
     (if n' = n then held \<and> guarded c n held es else guarded c n held es)"
| "guarded c n held (e # es) = guarded c n held es"

text \<open>A transport is open once upgraded and until closed.\<close>

definition conn_open :: "effect list \<Rightarrow> conn_ref \<Rightarrow> bool" where
  "conn_open tr n = (ConnUpgrade n \<in> set tr \<and> ConnClose n \<notin> set tr)"

text \<open>
  What the registry invariant looks at: the registry, the transport of each client, the
  allocation counters, and which transports have been upgraded and closed.
\<close>

definition footprint :: "world \<Rightarrow>
    (client_ref \<rightharpoonup> bool) \<times> (client_ref \<Rightarrow> conn_ref option) \<times> nat \<times> nat \<times> conn_ref set \<times> conn_ref set" where
  "footprint w = (clients w, (\<lambda>c. conn (heap w c)), next_client w, next_conn w,
     {n. ConnUpgrade n \<in> set (trace w)}, {n. ConnClose n \<in> set (trace w)})"

definition lifecycle :: "effect \<Rightarrow> bool" where
  "lifecycle e = (case e of ConnUpgrade n \<Rightarrow> True | ConnClose n \<Rightarrow> True | _ \<Rightarrow> False)"

text \<open>
  The invariant: clients and transports are allocated together and in step, a transport
  is upgraded when allocated, and it has been closed exactly when its client has left
  the registry.
\<close>

definition consistent :: "world \<Rightarrow> bool" where
  "consistent w =
     (case footprint w of (cl, cn, nc, nn, up, closed) \<Rightarrow>
        nn = nc
      \<and> (\<forall>c. cn c = (if c < nc then Some c else None))
      \<and> (\<forall>n. (n \<in> up) = (n < nn))
      \<and> (\<forall>n. (n \<in> closed) = (n < nc \<and> cl n = None))
      \<and> (\<forall>c. cl c \<noteq> None \<longrightarrow> c < nc))"

text \<open>Every handle held by a client has been allocated.\<close>

definition handles_fresh :: "world \<Rightarrow> bool" where
  "handles_fresh w = (\<forall>c p. pc (heap w c) = Some p \<longrightarrow> p < next_pc w)"

text \<open>
  With the ticker started (or its last tick) at \<open>t\<close> and the last activity at \<open>a\<close>,
  the number of ticks that come no later than 45 seconds after the last activity.
\<close>

definition pings_before_timeout :: "int \<Rightarrow> int \<Rightarrow> nat" where
  "pings_before_timeout t a = nat ((a + 45 * second - t) div (30 * second))"

section \<open>Sample inputs\<close>

definition env_ok :: outcomes where
  "env_ok = \<lparr>newPeerConnection_ok = True, createDataChannel_ok = True,
             setRemoteDescription_ok = True, createAnswer = Some ''v=0 answer'',
             setLocalDescription_ok = True, addICECandidate_ok = True, writeJSON_ok = True\<rparr>"

definition offer_frame :: unmarshal where
  "offer_frame = Decoded [(''type'', JStr ''offer''), (''sdp'', JStr ''v=0'')]"

definition offer_without_sdp :: unmarshal where
  "offer_without_sdp = Decoded [(''type'', JStr ''offer'')]"

definition ice_minimal :: jmap where
  "ice_minimal = [(''candidate'', JStr ''candidate:1 1 UDP 2130706431 192.0.2.1 9 typ host'')]"

definition ice_frame :: unmarshal where
  "ice_frame = Decoded [(''type'', JStr ''ice''), (''candidate'', JObj ice_minimal)]"

definition opened :: world where
  \<comment> \<open>one session, client 0 on transport 0, connected at time 0\<close>
  "opened = run init [Upgrade 0 True]"

definition negotiating :: world where
  \<comment> \<open>the same session after a valid offer at time 1 was answered\<close>
  "negotiating = run opened [Receive 0 (Message 1 offer_frame env_ok)]"

section \<open>Basic facts\<close>

lemma ex_bool [simp]: "\<exists>y::bool. y"
  by blast

lemmas eval_defs = run_def init_def step_def connect_def emit_def logPrintln_def Let_def
  iteration_def dispatch_def handleOffer_def handleICE_def sendJSON_def cleanupClient_def
  handler_exit_def set_pc_def set_lastActivity_def tick_def index_def assertString_def
  assertMap_def assertFloat64_def answerMessage_def iceMessage_def pongHandler_def
  candidateProduced_def second_def receive_def expired_def setReadDeadline_def

lemma emit_proj [simp]:
  "trace (emit e w) = trace w @ [e]" "clients (emit e w) = clients w" "heap (emit e w) = heap w"
  "next_client (emit e w) = next_client w" "next_conn (emit e w) = next_conn w"
  "next_pc (emit e w) = next_pc w" "reading (emit e w) = reading w"
  "monitoring (emit e w) = monitoring w" "onICECandidate (emit e w) = onICECandidate w"
  "crashed (emit e w) = crashed w"
  by (simp_all add: emit_def)

lemma logPrintln_proj [simp]:
  "trace (logPrintln s w) = trace w @ [Log s]" "clients (logPrintln s w) = clients w"
  "heap (logPrintln s w) = heap w"
  "next_client (logPrintln s w) = next_client w" "next_conn (logPrintln s w) = next_conn w"
  "next_pc (logPrintln s w) = next_pc w" "reading (logPrintln s w) = reading w"
  "monitoring (logPrintln s w) = monitoring w"
  "onICECandidate (logPrintln s w) = onICECandidate w"
  "crashed (logPrintln s w) = crashed w"
  by (simp_all add: logPrintln_def)

lemma set_pc_proj [simp]:
  "trace (set_pc c p w) = trace w" "clients (set_pc c p w) = clients w"
  "heap (set_pc c p w) = (heap w)(c := (heap w c)\<lparr>pc := p\<rparr>)"
  "next_client (set_pc c p w) = next_client w" "next_conn (set_pc c p w) = next_conn w"
  "next_pc (set_pc c p w) = next_pc w" "reading (set_pc c p w) = reading w"
  "monitoring (set_pc c p w) = monitoring w" "onICECandidate (set_pc c p w) = onICECandidate w"
  "crashed (set_pc c p w) = crashed w"
  by (simp_all add: set_pc_def)

lemma set_lastActivity_proj [simp]:
  "trace (set_lastActivity c t w) = trace w" "clients (set_lastActivity c t w) = clients w"
  "heap (set_lastActivity c t w) = (heap w)(c := (heap w c)\<lparr>lastActivity := t\<rparr>)"
  "next_client (set_lastActivity c t w) = next_client w"
  "next_conn (set_lastActivity c t w) = next_conn w"
  "next_pc (set_lastActivity c t w) = next_pc w" "reading (set_lastActivity c t w) = reading w"
  "monitoring (set_lastActivity c t w) = monitoring w"
  "onICECandidate (set_lastActivity c t w) = onICECandidate w"
  "crashed (set_lastActivity c t w) = crashed w"
  by (simp_all add: set_lastActivity_def)

lemma sendJSON_proj [simp]:
  "clients (snd (sendJSON c d ok w)) = clients w" "heap (snd (sendJSON c d ok w)) = heap w"
  "next_client (snd (sendJSON c d ok w)) = next_client w"
  "next_conn (snd (sendJSON c d ok w)) = next_conn w"
  "next_pc (snd (sendJSON c d ok w)) = next_pc w" "reading (snd (sendJSON c d ok w)) = reading w"
  "monitoring (snd (sendJSON c d ok w)) = monitoring w"
  "onICECandidate (snd (sendJSON c d ok w)) = onICECandidate w"
  "crashed (snd (sendJSON c d ok w)) = crashed w"
  by (simp_all add: sendJSON_def Let_def split: option.split)

lemma sendJSON_trace:
  "trace (snd (sendJSON c d ok w)) = trace w @ [Lock (ClientMu c)] @
     (case conn (heap w c) of None \<Rightarrow> [] | Some n \<Rightarrow> [ConnWrite n (JSONMessage d) ok])
     @ [Unlock (ClientMu c)]"
  by (simp add: sendJSON_def Let_def split: option.split)

lemma sendJSON_fst:
  "fst (sendJSON c d ok w) =
     (case conn (heap w c) of None \<Rightarrow> Panicked ''nil pointer dereference'' | Some n \<Rightarrow> Done ok)"
  by (simp add: sendJSON_def Let_def split: option.split)

lemma setReadDeadline_proj [simp]:
  "trace (setReadDeadline n t w) = trace w" "clients (setReadDeadline n t w) = clients w"
  "heap (setReadDeadline n t w) = heap w"
  "next_client (setReadDeadline n t w) = next_client w"
  "next_conn (setReadDeadline n t w) = next_conn w"
  "next_pc (setReadDeadline n t w) = next_pc w" "reading (setReadDeadline n t w) = reading w"
  "monitoring (setReadDeadline n t w) = monitoring w"
  "onICECandidate (setReadDeadline n t w) = onICECandidate w"
  "crashed (setReadDeadline n t w) = crashed w"
  "readDeadline (setReadDeadline n t w) = (readDeadline w)(n \<mapsto> t)"
  by (simp_all add: setReadDeadline_def)

subsection \<open>Teardown\<close>

lemma cleanup_absent:
  "clients w c = None \<Longrightarrow> cleanupClient c w = emit (Unlock Registry) (emit (Lock Registry) w)"
  by (simp add: cleanupClient_def)

lemma cleanup_proj [simp]:
  "clients (cleanupClient c w) = (clients w)(c := None)" "heap (cleanupClient c w) = heap w"
  "next_client (cleanupClient c w) = next_client w" "next_conn (cleanupClient c w) = next_conn w"
  "next_pc (cleanupClient c w) = next_pc w" "reading (cleanupClient c w) = reading w"
  "monitoring (cleanupClient c w) = monitoring w"
  "onICECandidate (cleanupClient c w) = onICECandidate w"
  "crashed (cleanupClient c w) = crashed w"
  by (auto simp: cleanupClient_def Let_def split: option.splits)

lemma cleanup_trace_present:
  "clients w c \<noteq> None \<Longrightarrow> trace (cleanupClient c w) =
     trace w @ [Lock Registry] @ (case pc (heap w c) of None \<Rightarrow> [] | Some p \<Rightarrow> [PcClose p])
       @ (case conn (heap w c) of None \<Rightarrow> [] | Some n \<Rightarrow> [ConnClose n])
       @ [Log ''Client cleaned up'', Unlock Registry]"
  by (auto simp: cleanupClient_def Let_def split: option.splits)

lemma cleanup_trace_absent:
  "clients w c = None \<Longrightarrow> trace (cleanupClient c w) = trace w @ [Lock Registry, Unlock Registry]"
  by (simp add: cleanup_absent)

subsection \<open>The sample session\<close>

lemma opened_eq:
  "opened = \<lparr>clients = [0 \<mapsto> True],
     heap = (\<lambda>c. \<lparr>conn = None, pc = None, lastActivity = 0\<rparr>)
              (0 := \<lparr>conn = Some 0, pc = None, lastActivity = 0\<rparr>),
     next_client = 1, next_conn = 1, next_pc = 0,
     reading = (\<lambda>c. False)(0 := True), monitoring = [0 \<mapsto> 0],
     readDeadline = [0 \<mapsto> 60000000000],
     onICECandidate = Map.empty, crashed = False,
     trace = [ConnUpgrade 0, Log ''New WebSocket connection established'',
              Lock Registry, Unlock Registry]\<rparr>"
  by (simp add: opened_def eval_defs)

lemma negotiating_eq:
  "negotiating = \<lparr>clients = [0 \<mapsto> True],
     heap = (\<lambda>c. \<lparr>conn = None, pc = None, lastActivity = 0\<rparr>)
              (0 := \<lparr>conn = Some 0, pc = Some 0, lastActivity = 1\<rparr>),
     next_client = 1, next_conn = 1, next_pc = 1,
     reading = (\<lambda>c. False)(0 := True), monitoring = [0 \<mapsto> 0],
     readDeadline = [0 \<mapsto> 60000000000],
     onICECandidate = [0 \<mapsto> 0], crashed = False,
     trace = [ConnUpgrade 0, Log ''New WebSocket connection established'',
              Lock Registry, Unlock Registry,
              Log ''Received offer, creating PeerConnection'', PcNew 0,
              PcSetRemoteDescription 0 ''v=0'', Lock (ClientMu 0),
              ConnWrite 0 (JSONMessage (JObj [(''type'', JStr ''answer''), (''sdp'', JStr ''v=0 answer'')])) True,
              Unlock (ClientMu 0)]\<rparr>"
  by (simp add: negotiating_def opened_eq eval_defs env_ok_def offer_frame_def)

section \<open>Frames that do not parse\<close>

text \<open>
  Claim C8. A frame that fails to parse as a structured object is logged and dropped, and
  the receive loop continues: the session stays registered and reading, nothing but the
  log line is produced, and the frames after it are processed from that state.
\<close>

theorem unparsable_frame_dropped:
  assumes "reading w c" and "\<not> crashed w"
  shows "iteration c (Message now Unparsable env) w
           = (Continue, logPrintln ''JSON unmarshal error:'' (set_lastActivity c now w))
    \<and> step w (Receive c (Message now Unparsable env))
           = logPrintln ''JSON unmarshal error:'' (set_lastActivity c now w)
    \<and> reading (step w (Receive c (Message now Unparsable env))) c
    \<and> clients (step w (Receive c (Message now Unparsable env))) = clients w
    \<and> trace (step w (Receive c (Message now Unparsable env)))
           = trace w @ [Log ''JSON unmarshal error:'']
    \<and> run w (Receive c (Message now Unparsable env) # evs)
           = run (logPrintln ''JSON unmarshal error:'' (set_lastActivity c now w)) evs"
  using assms
  by (simp add: step_def receive_def iteration_def run_def)

theorem unparsable_frame_dropped_witness:
  "reading opened 0 \<and> \<not> crashed opened
    \<and> step opened (Receive 0 (Message 5 Unparsable env_ok))
         = logPrintln ''JSON unmarshal error:'' (set_lastActivity 0 5 opened)
    \<and> clients (step opened (Receive 0 (Message 5 Unparsable env_ok))) 0 = Some True
    \<and> trace (run opened [Receive 0 (Message 5 Unparsable env_ok),
                          Receive 0 (Message 6 offer_frame env_ok)])
         = trace opened @ [Log ''JSON unmarshal error:'',
             Log ''Received offer, creating PeerConnection'', PcNew 0,
             PcSetRemoteDescription 0 ''v=0'', Lock (ClientMu 0),
             ConnWrite 0 (JSONMessage (answerMessage ''v=0 answer'')) True, Unlock (ClientMu 0)]"
  using unparsable_frame_dropped [of opened 0 5 env_ok]
  by (simp add: opened_eq eval_defs env_ok_def offer_frame_def)

section \<open>Candidates before any offer\<close>

text \<open>
  Claim C5. An \<^verbatim>\<open>ice\<close> message whose \<^verbatim>\<open>candidate\<close> field is an object, received by a
  session that has no negotiation handle yet, is dropped: nothing is written, logged or
  closed, the session stays registered and reading, and only the activity timestamp
  changes.
\<close>

theorem ice_before_offer_dropped:
  assumes "reading w c" and "\<not> crashed w" and "pc (heap w c) = None"
    and "index data ''type'' = JStr ''ice''" and "index data ''candidate'' = JObj cand"
  shows "step w (Receive c (Message now (Decoded data) env)) = set_lastActivity c now w
    \<and> trace (step w (Receive c (Message now (Decoded data) env))) = trace w
    \<and> clients (step w (Receive c (Message now (Decoded data) env))) = clients w
    \<and> reading (step w (Receive c (Message now (Decoded data) env))) c"
  using assms
  by (simp add: step_def receive_def iteration_def dispatch_def handleICE_def assertMap_def)

theorem ice_before_offer_dropped_witness:
  "reading opened 0 \<and> \<not> crashed opened \<and> pc (heap opened 0) = None
    \<and> index [(''type'', JStr ''ice''), (''candidate'', JObj ice_minimal)] ''type'' = JStr ''ice''
    \<and> index [(''type'', JStr ''ice''), (''candidate'', JObj ice_minimal)] ''candidate''
         = JObj ice_minimal
    \<and> step opened (Receive 0 (Message 3 (Decoded [(''type'', JStr ''ice''),
          (''candidate'', JObj ice_minimal)]) env_ok)) = set_lastActivity 0 3 opened"
  using ice_before_offer_dropped [of opened 0 "[(''type'', JStr ''ice''), (''candidate'', JObj ice_minimal)]"
      ice_minimal 3 env_ok]
  by (simp add: opened_eq index_def)

section \<open>Offers\<close>

lemma offer_prefix_proj [simp]:
  "clients (offer_prefix c sdp env w) = clients w"
  "heap (offer_prefix c sdp env w) = (heap w)(c := (heap w c)\<lparr>pc := Some (next_pc w)\<rparr>)"
  "next_client (offer_prefix c sdp env w) = next_client w"
  "next_conn (offer_prefix c sdp env w) = next_conn w"
  "next_pc (offer_prefix c sdp env w) = Suc (next_pc w)"
  "reading (offer_prefix c sdp env w) = reading w"
  "monitoring (offer_prefix c sdp env w) = monitoring w"
  "onICECandidate (offer_prefix c sdp env w) = (onICECandidate w)(next_pc w \<mapsto> c)"
  "crashed (offer_prefix c sdp env w) = crashed w"
  "trace (offer_prefix c sdp env w) =
     trace w @ [Log ''Received offer, creating PeerConnection'', PcNew (next_pc w)]
       @ (if createDataChannel_ok env then [] else [Log ''DataChannel error:''])
       @ [PcSetRemoteDescription (next_pc w) sdp]"
  by (simp_all add: offer_prefix_def Let_def)

lemma handleOffer_unfold:
  "handleOffer c sdp env w =
     (if \<not> newPeerConnection_ok env
      then (Done (), logPrintln ''PeerConnection error:''
              (logPrintln ''Received offer, creating PeerConnection'' w))
      else if \<not> setRemoteDescription_ok env
      then (Done (), logPrintln ''SetRemoteDescription error:'' (offer_prefix c sdp env w))
      else (case createAnswer env of
          None \<Rightarrow> (Done (), logPrintln ''CreateAnswer error:'' (offer_prefix c sdp env w))
        | Some answer \<Rightarrow>
            if \<not> setLocalDescription_ok env
            then (Done (), logPrintln ''SetLocalDescription error:'' (offer_prefix c sdp env w))
            else (case sendJSON c (answerMessage answer) (writeJSON_ok env)
                         (offer_prefix c sdp env w) of
              (r, w6) \<Rightarrow>
                (case r of
                   Panicked m \<Rightarrow> (Panicked m, w6)
                 | Done sent \<Rightarrow>
                     if sent then (Done (), w6)
                     else (Done (), logPrintln ''Send answer error:'' w6)))))"
  unfolding handleOffer_def offer_prefix_def Let_def by simp

lemma handleOffer_proj [simp]:
  "clients (snd (handleOffer c sdp env w)) = clients w"
  "next_client (snd (handleOffer c sdp env w)) = next_client w"
  "next_conn (snd (handleOffer c sdp env w)) = next_conn w"
  "reading (snd (handleOffer c sdp env w)) = reading w"
  "monitoring (snd (handleOffer c sdp env w)) = monitoring w"
  "crashed (snd (handleOffer c sdp env w)) = crashed w"
  by (simp_all add: handleOffer_unfold case_prod_beta split: option.split res.split)

lemma handleOffer_heap:
  "heap (snd (handleOffer c sdp env w)) =
     (if newPeerConnection_ok env then (heap w)(c := (heap w c)\<lparr>pc := Some (next_pc w)\<rparr>)
      else heap w)"
  by (simp add: handleOffer_unfold case_prod_beta split: option.split res.split)

lemma handleOffer_next_pc:
  "next_pc (snd (handleOffer c sdp env w)) =
     (if newPeerConnection_ok env then Suc (next_pc w) else next_pc w)"
  by (simp add: handleOffer_unfold case_prod_beta split: option.split res.split)

lemma handleOffer_count_PcClose:
  "count_list (trace (snd (handleOffer c sdp env w))) (PcClose p) = count_list (trace w) (PcClose p)"
  by (simp add: handleOffer_unfold case_prod_beta sendJSON_trace split: option.split res.split)

lemma handleOffer_count_PcNew:
  "count_list (trace (snd (handleOffer c sdp env w))) (PcNew p) =
     count_list (trace w) (PcNew p) + (if newPeerConnection_ok env \<and> p = next_pc w then 1 else 0)"
  by (simp add: handleOffer_unfold case_prod_beta sendJSON_trace split: option.split res.split)

lemma handleOffer_failed_later:
  assumes "newPeerConnection_ok env"
    and "\<not> setRemoteDescription_ok env \<or> createAnswer env = None \<or> \<not> setLocalDescription_ok env"
  shows "fst (handleOffer c sdp env w) = Done ()"
    and "\<exists>s. snd (handleOffer c sdp env w) = logPrintln s (offer_prefix c sdp env w)"
  using assms by (auto simp add: handleOffer_unfold split: option.split)

lemma cleanup_count_PcClose:
  "clients w c \<noteq> None \<Longrightarrow> count_list (trace (cleanupClient c w)) (PcClose p) =
     count_list (trace w) (PcClose p) + (if pc (heap w c) = Some p then 1 else 0)"
  by (auto simp: cleanup_trace_present split: option.splits)

text \<open>
  Claim C10. When \<^verbatim>\<open>handleOffer\<close> has created a negotiation handle and a later step
  (set-remote-description, create-answer or set-local-description) fails, the handler
  returns with the session's handle field set to that handle and without closing it.
  Teardown of the session then closes it; a further offer whose handle creation succeeds
  overwrites the field with a new handle and closes nothing, after which teardown closes
  the new handle and leaves the failed one unclosed.
\<close>

theorem failed_offer_keeps_handle:
  assumes "newPeerConnection_ok env"
    and "\<not> setRemoteDescription_ok env \<or> createAnswer env = None \<or> \<not> setLocalDescription_ok env"
    and "clients w c \<noteq> None"
    and "newPeerConnection_ok env2"
  shows "fst (handleOffer c sdp env w) = Done ()
    \<and> pc (heap (snd (handleOffer c sdp env w)) c) = Some (next_pc w)
    \<and> count_list (trace (snd (handleOffer c sdp env w))) (PcClose p) = count_list (trace w) (PcClose p)
    \<and> count_list (trace (cleanupClient c (snd (handleOffer c sdp env w)))) (PcClose (next_pc w))
        = count_list (trace w) (PcClose (next_pc w)) + 1
    \<and> pc (heap (snd (handleOffer c sdp2 env2 (snd (handleOffer c sdp env w)))) c)
        = Some (Suc (next_pc w))
    \<and> count_list (trace (snd (handleOffer c sdp2 env2 (snd (handleOffer c sdp env w))))) (PcClose p)
        = count_list (trace w) (PcClose p)
    \<and> count_list (trace (cleanupClient c (snd (handleOffer c sdp2 env2 (snd (handleOffer c sdp env w))))))
          (PcClose (next_pc w))
        = count_list (trace w) (PcClose (next_pc w))"
  using assms
  by (simp add: handleOffer_failed_later handleOffer_heap handleOffer_next_pc
      handleOffer_count_PcClose cleanup_count_PcClose)

theorem failed_offer_keeps_handle_witness:
  "newPeerConnection_ok (env_ok\<lparr>createAnswer := None\<rparr>)
    \<and> createAnswer (env_ok\<lparr>createAnswer := None\<rparr>) = None
    \<and> clients opened 0 \<noteq> None
    \<and> newPeerConnection_ok env_ok
    \<and> fst (handleOffer 0 ''v=0'' (env_ok\<lparr>createAnswer := None\<rparr>) opened) = Done ()
    \<and> pc (heap (snd (handleOffer 0 ''v=0'' (env_ok\<lparr>createAnswer := None\<rparr>) opened)) 0) = Some 0
    \<and> count_list (trace (snd (handleOffer 0 ''v=0'' (env_ok\<lparr>createAnswer := None\<rparr>) opened))) (PcClose 0) = 0
    \<and> count_list (trace (cleanupClient 0
          (snd (handleOffer 0 ''v=0'' (env_ok\<lparr>createAnswer := None\<rparr>) opened)))) (PcClose 0) = 1
    \<and> pc (heap (snd (handleOffer 0 ''v=1'' env_ok
          (snd (handleOffer 0 ''v=0'' (env_ok\<lparr>createAnswer := None\<rparr>) opened)))) 0) = Some 1
    \<and> count_list (trace (cleanupClient 0 (snd (handleOffer 0 ''v=1'' env_ok
          (snd (handleOffer 0 ''v=0'' (env_ok\<lparr>createAnswer := None\<rparr>) opened)))))) (PcClose 0) = 0"
  using failed_offer_keeps_handle [of "env_ok\<lparr>createAnswer := None\<rparr>" opened 0 env_ok "''v=0''" 0 "''v=1''"]
  by (simp add: opened_eq env_ok_def)

text \<open>
  Claim C2, as stated, fails: \<^verbatim>\<open>handleOffer\<close> has no check for an existing handle. Two
  valid offers on one session create two handles; the second replaces the first in the
  session, the first is not closed, and both offers are answered.
\<close>

theorem duplicate_offer_counterexample:
  "pc (heap negotiating 0) = Some 0
    \<and> pc (heap (run negotiating [Receive 0 (Message 2 offer_frame env_ok)]) 0) = Some 1
    \<and> count_list (trace (run negotiating [Receive 0 (Message 2 offer_frame env_ok)])) (PcNew 0) = 1
    \<and> count_list (trace (run negotiating [Receive 0 (Message 2 offer_frame env_ok)])) (PcNew 1) = 1
    \<and> count_list (trace (run negotiating [Receive 0 (Message 2 offer_frame env_ok)])) (PcClose 0) = 0
    \<and> count_list (trace (run negotiating [Receive 0 (Message 2 offer_frame env_ok)]))
         (ConnWrite 0 (JSONMessage (answerMessage ''v=0 answer'')) True) = 2"
  by (simp add: negotiating_eq eval_defs env_ok_def offer_frame_def)

subsection \<open>Handles are allocated before they are stored\<close>

lemma fresh_same:
  "(\<And>c. pc (heap w' c) = pc (heap w c)) \<Longrightarrow> next_pc w' = next_pc w \<Longrightarrow>
     handles_fresh w' = handles_fresh w"
  by (simp add: handles_fresh_def)

lemma fresh_cleanup [simp]: "handles_fresh (cleanupClient c w) = handles_fresh w"
  by (rule fresh_same) simp_all

lemma fresh_emit [simp]: "handles_fresh (emit e w) = handles_fresh w"
  by (rule fresh_same) simp_all

lemma fresh_log [simp]: "handles_fresh (logPrintln s w) = handles_fresh w"
  by (rule fresh_same) simp_all

lemma fresh_set_lastActivity [simp]: "handles_fresh (set_lastActivity c t w) = handles_fresh w"
  by (rule fresh_same) simp_all

lemma fresh_sendJSON [simp]: "handles_fresh (snd (sendJSON c d ok w)) = handles_fresh w"
  by (rule fresh_same) simp_all

lemma fresh_setReadDeadline [simp]: "handles_fresh (setReadDeadline n t w) = handles_fresh w"
  by (rule fresh_same) simp_all

lemma fresh_fields [simp]:
  "handles_fresh (w\<lparr>reading := r\<rparr>) = handles_fresh w"
  "handles_fresh (w\<lparr>monitoring := m\<rparr>) = handles_fresh w"
  "handles_fresh (w\<lparr>crashed := b\<rparr>) = handles_fresh w"
  by (simp_all add: handles_fresh_def)

lemma fresh_handleOffer: "handles_fresh w \<Longrightarrow> handles_fresh (snd (handleOffer c sdp env w))"
  by (auto simp: handles_fresh_def handleOffer_heap handleOffer_next_pc less_Suc_eq)

lemma handleICE_heap [simp]:
  "heap (snd (handleICE c cand env w)) = heap w" "next_pc (snd (handleICE c cand env w)) = next_pc w"
  by (simp_all add: handleICE_def Let_def split: option.split sum.split)

lemma fresh_handleICE [simp]: "handles_fresh (snd (handleICE c cand env w)) = handles_fresh w"
  by (rule fresh_same) simp_all

lemma fresh_dispatch: "handles_fresh w \<Longrightarrow> handles_fresh (snd (dispatch c data env w))"
  by (simp add: dispatch_def fresh_handleOffer split: sum.split)

lemma fresh_iteration: "handles_fresh w \<Longrightarrow> handles_fresh (snd (iteration c inp w))"
  by (simp add: iteration_def Let_def case_prod_beta fresh_dispatch
      split: input.split unmarshal.split res.split)

lemma fresh_step: "handles_fresh w \<Longrightarrow> handles_fresh (step w ev)"
proof (cases ev)
  case (Upgrade now ok)
  assume "handles_fresh w"
  then show ?thesis using Upgrade
    by (simp add: step_def receive_def connect_def Let_def handles_fresh_def)
next
  case (Receive c inp)
  assume "handles_fresh w"
  then show ?thesis using Receive fresh_iteration [of w c inp]
    by (simp add: step_def receive_def handler_exit_def case_prod_beta split: status.split)
next
  case (Tick c now ok)
  assume "handles_fresh w"
  then show ?thesis using Tick
    by (simp add: step_def receive_def tick_def Let_def case_prod_beta split: option.split)
next
  case (Pong c now)
  assume "handles_fresh w"
  then show ?thesis using Pong
    by (simp add: step_def pongHandler_def split: option.split)
next
  case (IceCandidate p cand ok)
  assume "handles_fresh w"
  then show ?thesis using IceCandidate
    by (simp add: step_def candidateProduced_def case_prod_beta split: option.split res.split)
next
  case (ReadTimeout c now)
  assume "handles_fresh w"
  then show ?thesis using ReadTimeout fresh_iteration [of w c ReadError]
    by (simp add: step_def receive_def handler_exit_def case_prod_beta split: status.split)
qed

lemma fresh_run: "handles_fresh (run init evs)"
proof -
  have "handles_fresh w \<Longrightarrow> handles_fresh (run w evs)" for w
    unfolding run_def by (induction evs arbitrary: w) (simp_all add: fresh_step)
  moreover have "handles_fresh init" by (simp add: handles_fresh_def init_def)
  ultimately show ?thesis by simp
qed

text \<open>
  Claim C2, amended. In every state the process reaches, a processed offer asks for a new
  negotiation handle, whether or not the session already has one, and nothing is closed.
  When the creation succeeds the new handle, different from the one the session had, is
  stored in the session and replaces it: the duplicate offer is not rejected. When the
  creation fails the session keeps the handle it had.
\<close>

theorem offer_always_creates_handle:
  "(if newPeerConnection_ok env
    then pc (heap (snd (handleOffer c sdp env (run init evs))) c) = Some (next_pc (run init evs))
       \<and> pc (heap (run init evs) c) \<noteq> Some (next_pc (run init evs))
       \<and> next_pc (snd (handleOffer c sdp env (run init evs))) = Suc (next_pc (run init evs))
       \<and> count_list (trace (snd (handleOffer c sdp env (run init evs)))) (PcNew (next_pc (run init evs)))
           = count_list (trace (run init evs)) (PcNew (next_pc (run init evs))) + 1
    else pc (heap (snd (handleOffer c sdp env (run init evs))) c) = pc (heap (run init evs) c)
       \<and> next_pc (snd (handleOffer c sdp env (run init evs))) = next_pc (run init evs)
       \<and> count_list (trace (snd (handleOffer c sdp env (run init evs)))) (PcNew p)
           = count_list (trace (run init evs)) (PcNew p))
   \<and> count_list (trace (snd (handleOffer c sdp env (run init evs)))) (PcClose p)
       = count_list (trace (run init evs)) (PcClose p)"
proof -
  have "pc (heap (run init evs) c) \<noteq> Some (next_pc (run init evs))"
    using fresh_run [of evs] by (auto simp: handles_fresh_def)
  then show ?thesis
    by (simp add: handleOffer_heap handleOffer_next_pc handleOffer_count_PcNew handleOffer_count_PcClose)
qed


theorem offer_always_creates_handle_witness:
  "pc (heap (run init [Upgrade 0 True, Receive 0 (Message 1 offer_frame env_ok)]) 0) = Some 0
    \<and> next_pc (run init [Upgrade 0 True, Receive 0 (Message 1 offer_frame env_ok)]) = 1
    \<and> pc (heap (snd (handleOffer 0 ''v=0'' env_ok
          (run init [Upgrade 0 True, Receive 0 (Message 1 offer_frame env_ok)]))) 0) = Some 1
    \<and> count_list (trace (snd (handleOffer 0 ''v=0'' env_ok
          (run init [Upgrade 0 True, Receive 0 (Message 1 offer_frame env_ok)])))) (PcNew 1) = 1
    \<and> count_list (trace (snd (handleOffer 0 ''v=0'' env_ok
          (run init [Upgrade 0 True, Receive 0 (Message 1 offer_frame env_ok)])))) (PcClose 0) = 0"
  using offer_always_creates_handle [of env_ok 0 "''v=0''"
      "[Upgrade 0 True, Receive 0 (Message 1 offer_frame env_ok)]" 0]
  by (simp add: eval_defs env_ok_def offer_frame_def)

section \<open>Frames with a missing or mistyped field\<close>

lemma handler_exit_proj [simp]:
  "clients (handler_exit c w) = (clients w)(c := None)"
  "reading (handler_exit c w) = (reading w)(c := False)"
  "crashed (handler_exit c w) = crashed w" "heap (handler_exit c w) = heap w"
  by (simp_all add: handler_exit_def)

text \<open>
  Claim C1 against the code. An \<^verbatim>\<open>offer\<close> frame whose \<^verbatim>\<open>sdp\<close> is missing or is not
  a string makes the unchecked assertion \<^verbatim>\<open>data["sdp"].(string)\<close> panic: the handler
  unwinds, its deferred teardown removes the session from the registry, the receive loop
  is over, and a frame that follows on the session is not processed.
\<close>

theorem offer_without_sdp_ends_session:
  assumes "reading w c" and "\<not> crashed w"
    and "index data ''type'' = JStr ''offer''" and "assertString (index data ''sdp'') = Inl m"
  shows "step w (Receive c (Message now (Decoded data) env))
           = emit (Panic m) (handler_exit c (set_lastActivity c now w))
    \<and> clients (step w (Receive c (Message now (Decoded data) env))) c = None
    \<and> \<not> reading (step w (Receive c (Message now (Decoded data) env))) c
    \<and> step (step w (Receive c (Message now (Decoded data) env))) (Receive c inp)
           = step w (Receive c (Message now (Decoded data) env))"
proof -
  have s: "step w (Receive c (Message now (Decoded data) env))
             = emit (Panic m) (handler_exit c (set_lastActivity c now w))"
    using assms by (simp add: step_def receive_def iteration_def dispatch_def)
  have "\<not> reading (emit (Panic m) (handler_exit c (set_lastActivity c now w))) c"
    by simp
  then have "step (emit (Panic m) (handler_exit c (set_lastActivity c now w))) (Receive c inp)
      = emit (Panic m) (handler_exit c (set_lastActivity c now w))"
    by (simp add: step_def receive_def)
  with s show ?thesis by simp
qed

theorem offer_without_sdp_ends_session_witness:
  "reading opened 0 \<and> \<not> crashed opened
    \<and> index [(''type'', JStr ''offer'')] ''type'' = JStr ''offer''
    \<and> assertString (index [(''type'', JStr ''offer'')] ''sdp'')
         = Inl ''interface conversion: interface {} is not string''
    \<and> trace (run opened [Receive 0 (Message 1 offer_without_sdp env_ok),
                          Receive 0 (Message 2 offer_frame env_ok)])
         = trace opened @ [Lock Registry, ConnClose 0, Log ''Client cleaned up'', Unlock Registry,
             Panic ''interface conversion: interface {} is not string'']
    \<and> clients (run opened [Receive 0 (Message 1 offer_without_sdp env_ok),
                            Receive 0 (Message 2 offer_frame env_ok)]) 0 = None"
  using offer_without_sdp_ends_session [of opened 0 "[(''type'', JStr ''offer'')]"
      "''interface conversion: interface {} is not string''" 1 env_ok
      "Message 2 offer_frame env_ok"]
  by (simp add: opened_eq eval_defs env_ok_def offer_frame_def offer_without_sdp_def)

section \<open>Candidates without the optional fields\<close>

text \<open>
  Claim C7 against the code. On a session that has a negotiation handle, a candidate
  object with a string \<^verbatim>\<open>candidate\<close> and no \<^verbatim>\<open>sdpMid\<close> makes \<^verbatim>\<open>handleICE\<close> of
  src/main.go panic at \<^verbatim>\<open>candidate["sdpMid"].(string)\<close>: nothing is forwarded to the
  handle, and in the receive loop the panic tears the session down. The variant of
  src/unnamed/part_001 forwards the same candidate with the optional fields absent.
\<close>

theorem ice_without_optionals_panics:
  assumes "pc (heap w c) = Some p" and "index candidate ''candidate'' = JStr s"
    and "map_of candidate ''sdpMid'' = None"
    and "reading w c" and "\<not> crashed w"
    and "index data ''type'' = JStr ''ice''" and "index data ''candidate'' = JObj candidate"
  shows "handleICE c candidate env w
           = (Panicked ''interface conversion: interface {} is not string'', w)
    \<and> step w (Receive c (Message now (Decoded data) env))
           = emit (Panic ''interface conversion: interface {} is not string'')
               (handler_exit c (set_lastActivity c now w))
    \<and> clients (step w (Receive c (Message now (Decoded data) env))) c = None
    \<and> fst (handleICE_part_001 c candidate env w) = Done ()
    \<and> trace (snd (handleICE_part_001 c candidate env w))
           = trace w @ [PcAddICECandidate p
                \<lparr>Candidate = s, SDPMid = None,
                 SDPMLineIndex = map_option word_of_int (okFloat64 (index candidate ''sdpMLineIndex'')),
                 UsernameFragment = None\<rparr>]
              @ (if addICECandidate_ok env then [] else [Log ''AddICECandidate error:''])"
proof -
  have h: "handleICE c candidate env w'
      = (Panicked ''interface conversion: interface {} is not string'', w')"
    if "pc (heap w' c) = Some p" for w'
    using that assms(2,3) by (simp add: handleICE_def index_def assertString_def)
  have "step w (Receive c (Message now (Decoded data) env))
           = emit (Panic ''interface conversion: interface {} is not string'')
               (handler_exit c (set_lastActivity c now w))"
    using assms h [of "set_lastActivity c now w"]
    by (simp add: step_def receive_def iteration_def dispatch_def assertMap_def)
  moreover have "fst (handleICE_part_001 c candidate env w) = Done ()"
    using assms(1,2) by (simp add: handleICE_part_001_def assertString_def Let_def)
  moreover have "trace (snd (handleICE_part_001 c candidate env w))
           = trace w @ [PcAddICECandidate p
                \<lparr>Candidate = s, SDPMid = None,
                 SDPMLineIndex = map_option word_of_int (okFloat64 (index candidate ''sdpMLineIndex'')),
                 UsernameFragment = None\<rparr>]
              @ (if addICECandidate_ok env then [] else [Log ''AddICECandidate error:''])"
    using assms(1,2,3)
    by (simp add: handleICE_part_001_def assertString_def Let_def index_def okString_def)
  ultimately show ?thesis using h [OF assms(1)] by simp
qed

theorem ice_without_optionals_panics_witness:
  "pc (heap negotiating 0) = Some 0
    \<and> index ice_minimal ''candidate'' = JStr ''candidate:1 1 UDP 2130706431 192.0.2.1 9 typ host''
    \<and> map_of ice_minimal ''sdpMid'' = None
    \<and> reading negotiating 0 \<and> \<not> crashed negotiating
    \<and> index [(''type'', JStr ''ice''), (''candidate'', JObj ice_minimal)] ''type'' = JStr ''ice''
    \<and> index [(''type'', JStr ''ice''), (''candidate'', JObj ice_minimal)] ''candidate''
         = JObj ice_minimal
    \<and> handleICE 0 ice_minimal env_ok negotiating
         = (Panicked ''interface conversion: interface {} is not string'', negotiating)
    \<and> trace (run negotiating [Receive 0 (Message 2 ice_frame env_ok)])
         = trace negotiating @ [Lock Registry, PcClose 0, ConnClose 0, Log ''Client cleaned up'',
             Unlock Registry, Panic ''interface conversion: interface {} is not string'']
    \<and> trace (snd (handleICE_part_001 0 ice_minimal env_ok negotiating))
         = trace negotiating @ [PcAddICECandidate 0
             \<lparr>Candidate = ''candidate:1 1 UDP 2130706431 192.0.2.1 9 typ host'', SDPMid = None,
              SDPMLineIndex = None, UsernameFragment = None\<rparr>]"
  using ice_without_optionals_panics [of negotiating 0 0 ice_minimal
      "''candidate:1 1 UDP 2130706431 192.0.2.1 9 typ host''"
      "[(''type'', JStr ''ice''), (''candidate'', JObj ice_minimal)]" env_ok 2]
  by (simp add: negotiating_eq eval_defs env_ok_def ice_frame_def ice_minimal_def
      handleICE_part_001_def okString_def okFloat64_def)

section \<open>The write lock\<close>

text \<open>
  Claim C9 against the code. The answer is written through \<^verbatim>\<open>sendJSON\<close>, under the
  session's mutex; the monitor's ping is written with \<^verbatim>\<open>conn.WriteMessage\<close> directly,
  with the mutex not taken: after a first tick on a fresh session the trace breaks the
  lock discipline, and its last effect is the ping.
\<close>

theorem ping_written_without_lock:
  "guarded 0 0 False (trace negotiating)
    \<and> trace (run negotiating [Tick 0 (30 * second) True])
         = trace negotiating @ [ConnWrite 0 PingMessage True]
    \<and> \<not> guarded 0 0 False (trace (run negotiating [Tick 0 (30 * second) True]))"
  by (simp add: negotiating_eq eval_defs)

section \<open>The registry and the transports\<close>

lemma consistent_iff:
  "consistent w =
     (next_conn w = next_client w
      \<and> (\<forall>c. conn (heap w c) = (if c < next_client w then Some c else None))
      \<and> (\<forall>n. (ConnUpgrade n \<in> set (trace w)) = (n < next_conn w))
      \<and> (\<forall>n. (ConnClose n \<in> set (trace w)) = (n < next_client w \<and> clients w n = None))
      \<and> (\<forall>c. clients w c \<noteq> None \<longrightarrow> c < next_client w))"
  by (simp add: consistent_def footprint_def)

lemma footprint_emit: "\<not> lifecycle e \<Longrightarrow> footprint (emit e w) = footprint w"
  by (cases e) (auto simp: footprint_def lifecycle_def)

lemma footprint_log [simp]: "footprint (logPrintln s w) = footprint w"
  by (simp add: logPrintln_def footprint_emit lifecycle_def)

lemma footprint_set_pc [simp]: "footprint (set_pc c p w) = footprint w"
  by (simp add: footprint_def fun_eq_iff)

lemma footprint_set_lastActivity [simp]: "footprint (set_lastActivity c t w) = footprint w"
  by (simp add: footprint_def fun_eq_iff)

lemma footprint_sendJSON [simp]: "footprint (snd (sendJSON c d ok w)) = footprint w"
  by (auto simp: footprint_def sendJSON_trace split: option.splits)

lemma footprint_offer_prefix [simp]: "footprint (offer_prefix c sdp env w) = footprint w"
  by (auto simp: footprint_def fun_eq_iff)

lemma footprint_handleOffer [simp]: "footprint (snd (handleOffer c sdp env w)) = footprint w"
  by (simp add: handleOffer_unfold case_prod_beta split: option.split res.split)

lemma footprint_handleICE [simp]: "footprint (snd (handleICE c cand env w)) = footprint w"
  by (simp add: handleICE_def Let_def footprint_emit lifecycle_def
      split: option.split sum.split)

lemma footprint_dispatch [simp]: "footprint (snd (dispatch c data env w)) = footprint w"
  by (simp add: dispatch_def split: sum.split)

lemma footprint_iteration [simp]: "footprint (snd (iteration c inp w)) = footprint w"
  by (simp add: iteration_def Let_def case_prod_beta split: input.split unmarshal.split res.split)

lemma footprint_candidateProduced [simp]:
  "footprint (snd (candidateProduced c cand ok w)) = footprint w"
  by (simp add: candidateProduced_def case_prod_beta split: option.split res.split)

lemma footprint_setReadDeadline [simp]: "footprint (setReadDeadline n t w) = footprint w"
  by (simp add: footprint_def)

lemma footprint_pongHandler [simp]: "footprint (pongHandler c n now w) = footprint w"
  by (simp add: pongHandler_def)

lemma footprint_fields [simp]:
  "footprint (w\<lparr>reading := r\<rparr>) = footprint w"
  "footprint (w\<lparr>monitoring := m\<rparr>) = footprint w"
  "footprint (w\<lparr>crashed := b\<rparr>) = footprint w"
  by (simp_all add: footprint_def)

lemma consistent_footprint: "footprint w' = footprint w \<Longrightarrow> consistent w' = consistent w"
  by (simp add: consistent_def)

lemma consistent_emit: "\<not> lifecycle e \<Longrightarrow> consistent (emit e w) = consistent w"
  by (rule consistent_footprint) (simp add: footprint_emit)

lemma consistent_log [simp]: "consistent (logPrintln s w) = consistent w"
  by (rule consistent_footprint) simp

lemma not_lifecycle [simp]: "\<not> lifecycle (ConnWrite n m ok)" "\<not> lifecycle (Panic s)"
  by (simp_all add: lifecycle_def)

lemma consistent_cleanup: "consistent w \<Longrightarrow> consistent (cleanupClient c w)"
proof (cases "clients w c = None")
  case True
  assume "consistent w"
  then show ?thesis using True
    by (simp add: consistent_iff cleanup_trace_absent)
next
  case False
  assume "consistent w"
  then show ?thesis using False
    by (auto simp: consistent_iff cleanup_trace_present split: option.splits)
qed

lemma consistent_connect: "consistent w \<Longrightarrow> consistent (connect now ok w)"
  by (auto simp: consistent_iff connect_def Let_def less_Suc_eq)

lemma consistent_step: "consistent w \<Longrightarrow> consistent (step w ev)"
proof (cases ev)
  case (Upgrade now ok)
  assume "consistent w"
  then show ?thesis using Upgrade by (simp add: step_def receive_def consistent_connect)
next
  case (Receive c inp)
  assume c: "consistent w"
  have 1: "consistent (snd (iteration c inp w))"
    using c consistent_footprint [OF footprint_iteration] by simp
  have 2: "consistent (handler_exit c (snd (iteration c inp w)))"
    unfolding handler_exit_def
    using 1 consistent_footprint [OF footprint_fields(1)] consistent_cleanup by simp
  have 3: "consistent (emit (Panic m) (handler_exit c (snd (iteration c inp w))))" for m
    using 2 consistent_footprint [OF footprint_emit, of "Panic m"] by (simp add: lifecycle_def)
  show ?thesis using Receive c 1 2 3
    by (simp add: step_def receive_def case_prod_beta split: status.split)
next
  case (Tick c now ok)
  assume c: "consistent w"
  have "consistent (snd (tick c n now ok w))" for n
    using c by (simp add: tick_def Let_def consistent_emit consistent_cleanup)
  then show ?thesis using Tick c consistent_footprint [OF footprint_fields(2)]
    by (simp add: step_def receive_def case_prod_beta split: option.split)
next
  case (Pong c now)
  assume "consistent w"
  then show ?thesis using Pong consistent_footprint [OF footprint_pongHandler]
    by (simp add: step_def split: option.split)
next
  case (IceCandidate p cand ok)
  assume c: "consistent w"
  have 1: "consistent (snd (candidateProduced c' cand ok w))" for c'
    using c consistent_footprint [OF footprint_candidateProduced] by simp
  have 2: "consistent ((emit (Panic m) (snd (candidateProduced c' cand ok w)))\<lparr>crashed := True\<rparr>)" for m c'
    using 1 [of c'] consistent_footprint [OF footprint_fields(3)]
      consistent_footprint [OF footprint_emit, of "Panic m"] by (simp add: lifecycle_def)
  show ?thesis using IceCandidate c 1 2
    by (simp add: step_def case_prod_beta split: option.split res.split)
next
  case (ReadTimeout c now)
  assume c: "consistent w"
  have 1: "consistent (snd (iteration c ReadError w))"
    using c consistent_footprint [OF footprint_iteration] by simp
  have 2: "consistent (handler_exit c (snd (iteration c ReadError w)))"
    unfolding handler_exit_def
    using 1 consistent_footprint [OF footprint_fields(1)] consistent_cleanup by simp
  have 3: "consistent (emit (Panic m) (handler_exit c (snd (iteration c ReadError w))))" for m
    using 2 consistent_footprint [OF footprint_emit, of "Panic m"] by (simp add: lifecycle_def)
  show ?thesis using ReadTimeout c 1 2 3
    by (simp add: step_def receive_def case_prod_beta split: status.split)
qed

lemma consistent_init: "consistent init"
  by (simp add: consistent_iff init_def)

lemma consistent_run: "consistent w \<Longrightarrow> consistent (run w evs)"
  unfolding run_def by (induction evs arbitrary: w) (simp_all add: consistent_step)

text \<open>
  Claim C4. In every state the process reaches, between events, a session is a key of the
  registry exactly when its transport has been upgraded and not closed. Teardown of a
  registered session is one critical section of the registry mutex: inside it the
  negotiation handle (if any) and the transport are closed and the key is deleted.
\<close>

theorem registry_iff_transport_open:
  assumes "clients w c \<noteq> None" and "conn (heap w c) = Some n"
  shows "((clients (run init evs) c' \<noteq> None)
       = (\<exists>n'. conn (heap (run init evs) c') = Some n' \<and> conn_open (trace (run init evs)) n'))
    \<and> trace (cleanupClient c w)
        = trace w @ [Lock Registry] @ (case pc (heap w c) of None \<Rightarrow> [] | Some p \<Rightarrow> [PcClose p])
            @ [ConnClose n, Log ''Client cleaned up'', Unlock Registry]
    \<and> clients (cleanupClient c w) = (clients w)(c := None)"
proof -
  have "consistent (run init evs)" by (simp add: consistent_run consistent_init)
  then have "(clients (run init evs) c' \<noteq> None)
       = (\<exists>n'. conn (heap (run init evs) c') = Some n' \<and> conn_open (trace (run init evs)) n')"
    by (auto simp: consistent_iff conn_open_def split: if_splits)
  then show ?thesis using assms by (simp add: cleanup_trace_present)
qed

theorem registry_iff_transport_open_witness:
  "clients negotiating 0 \<noteq> None \<and> conn (heap negotiating 0) = Some 0
    \<and> ((clients (run init [Upgrade 0 True, Upgrade 1 True, Tick 0 (60 * second) True]) 0 \<noteq> None)
       = (\<exists>n'. conn (heap (run init [Upgrade 0 True, Upgrade 1 True, Tick 0 (60 * second) True]) 0) = Some n'
            \<and> conn_open (trace (run init [Upgrade 0 True, Upgrade 1 True, Tick 0 (60 * second) True])) n'))
    \<and> clients (run init [Upgrade 0 True, Upgrade 1 True, Tick 0 (60 * second) True]) 0 = None
    \<and> clients (run init [Upgrade 0 True, Upgrade 1 True, Tick 0 (60 * second) True]) 1 = Some True
    \<and> trace (cleanupClient 0 negotiating)
        = trace negotiating @ [Lock Registry, PcClose 0, ConnClose 0, Log ''Client cleaned up'',
            Unlock Registry]"
  using registry_iff_transport_open [of negotiating 0 0
      "[Upgrade 0 True, Upgrade 1 True, Tick 0 (60 * second) True]" 0]
  by (simp add: negotiating_eq eval_defs)


section \<open>The liveness monitor\<close>

lemma tick_ping:
  "now - lastActivity (heap w c) \<le> 45 * second \<Longrightarrow>
     tick c n now True w = (True, emit (ConnWrite n PingMessage True) w)"
  by (simp add: tick_def Let_def)

lemma tick_timeout:
  "now - lastActivity (heap w c) > 45 * second \<Longrightarrow>
     tick c n now ok w = (False, cleanupClient c (logPrintln ''Connection timeout, closing...'' w))"
  by (simp add: tick_def)

lemma funpow_emit_proj [simp]:
  "heap ((emit e ^^ j) w) = heap w" "clients ((emit e ^^ j) w) = clients w"
  "trace ((emit e ^^ j) w) = trace w @ replicate j e"
  by (induction j) (simp_all add: replicate_append_same)

lemma monitor_pings:
  "t + 30 * second * int j \<le> lastActivity (heap w c) + 45 * second \<Longrightarrow>
     monitor c n t (replicate j True @ oks) w
       = monitor c n (t + 30 * second * int j) oks ((emit (ConnWrite n PingMessage True) ^^ j) w)"
proof (induction j arbitrary: t w)
  case 0
  then show ?case by simp
next
  case (Suc j)
  have le: "t + 30 * second - lastActivity (heap w c) \<le> 45 * second"
    using Suc.prems by (simp add: second_def algebra_simps)
  have step1: "monitor c n t (replicate (Suc j) True @ oks) w
      = monitor c n (t + 30 * second) (replicate j True @ oks) (emit (ConnWrite n PingMessage True) w)"
    by (simp add: tick_ping [OF le])
  have "t + 30 * second + 30 * second * int j
          \<le> lastActivity (heap (emit (ConnWrite n PingMessage True) w) c) + 45 * second"
    using Suc.prems by (simp add: algebra_simps)
  from Suc.IH [OF this]
  have step2: "monitor c n (t + 30 * second) (replicate j True @ oks) (emit (ConnWrite n PingMessage True) w)
      = monitor c n (t + 30 * second + 30 * second * int j) oks
          ((emit (ConnWrite n PingMessage True) ^^ j) (emit (ConnWrite n PingMessage True) w))" .
  have eq: "t + 30 * second + 30 * second * int j = t + 30 * second * int (Suc j)"
    by (simp add: algebra_simps)
  have pw: "(emit (ConnWrite n PingMessage True) ^^ j) (emit (ConnWrite n PingMessage True) w)
      = (emit (ConnWrite n PingMessage True) ^^ Suc j) w"
    by (simp add: funpow_swap1)
  show ?case unfolding step1 step2 eq pw ..
qed

text \<open>
  The monitor while its probes are written. For a registered session that stays idle, the
  monitor pings at each tick that comes no later than 45 seconds after the last activity
  and tears the session down at the first tick after that; this tick comes more than 45
  and at most 75 seconds after the last activity.
\<close>

lemma idle_session_timeout:
  assumes "clients w c \<noteq> None" and "t \<le> lastActivity (heap w c) + 45 * second"
  shows "monitor c n t (replicate (pings_before_timeout t (lastActivity (heap w c))) True @ ok # oks) w
      = (False, cleanupClient c (logPrintln ''Connection timeout, closing...''
           ((emit (ConnWrite n PingMessage True) ^^ pings_before_timeout t (lastActivity (heap w c))) w)))
    \<and> clients (snd (monitor c n t
          (replicate (pings_before_timeout t (lastActivity (heap w c))) True @ ok # oks) w)) c = None
    \<and> lastActivity (heap w c) + 45 * second
         < t + 30 * second * (int (pings_before_timeout t (lastActivity (heap w c))) + 1)
    \<and> t + 30 * second * (int (pings_before_timeout t (lastActivity (heap w c))) + 1)
         \<le> lastActivity (heap w c) + 75 * second
    \<and> t + 30 * second * int (pings_before_timeout t (lastActivity (heap w c)))
         \<le> lastActivity (heap w c) + 45 * second"
proof -
  define a where "a = lastActivity (heap w c)"
  define j where "j = pings_before_timeout t a"
  define d where "d = a + 45 * second - t"
  have d0: "0 \<le> d" using assms(2) by (simp add: d_def a_def)
  have j_eq: "int j = d div (30 * second)"
    using d0 by (simp add: j_def pings_before_timeout_def d_def second_def pos_imp_zdiv_nonneg_iff)
  have pos: "0 < 30 * second" by (simp add: second_def)
  have lo: "30 * second * int j \<le> d"
  proof -
    have "d = 30 * second * (d div (30 * second)) + d mod (30 * second)" by simp
    moreover have "0 \<le> d mod (30 * second)" using pos by simp
    ultimately show ?thesis unfolding j_eq by linarith
  qed
  have hi: "d < 30 * second * (int j + 1)"
  proof -
    have "d = 30 * second * (d div (30 * second)) + d mod (30 * second)" by simp
    moreover have "d mod (30 * second) < 30 * second" using pos by simp
    ultimately show ?thesis unfolding j_eq by (simp only: distrib_left mult_1_right)
  qed
  have before: "t + 30 * second * int j \<le> a + 45 * second"
    using lo by (simp add: d_def)
  have after: "a + 45 * second < t + 30 * second * (int j + 1)"
    using hi by (simp add: d_def)
  have bound: "t + 30 * second * (int j + 1) \<le> a + 75 * second"
    using lo by (simp add: d_def algebra_simps)
  have run: "monitor c n t (replicate j True @ ok # oks) w
      = monitor c n (t + 30 * second * int j) (ok # oks) ((emit (ConnWrite n PingMessage True) ^^ j) w)"
    using before by (simp add: monitor_pings a_def)
  have "t + 30 * second * int j + 30 * second
          - lastActivity (heap ((emit (ConnWrite n PingMessage True) ^^ j) w) c) > 45 * second"
    using after by (simp add: a_def algebra_simps)
  from tick_timeout [OF this]
  have fin: "monitor c n t (replicate j True @ ok # oks) w
      = (False, cleanupClient c (logPrintln ''Connection timeout, closing...''
           ((emit (ConnWrite n PingMessage True) ^^ j) w)))"
    by (simp add: run)
  show ?thesis
    using fin before after bound by (simp add: j_def a_def)
qed


lemma idle_session_timeout_example:
  "clients opened 0 \<noteq> None \<and> 0 \<le> lastActivity (heap opened 0) + 45 * second
    \<and> pings_before_timeout 0 (lastActivity (heap opened 0)) = 1
    \<and> monitor 0 0 0 [True, True, True] opened
      = (False, cleanupClient 0 (logPrintln ''Connection timeout, closing...''
           (emit (ConnWrite 0 PingMessage True) opened)))
    \<and> clients (snd (monitor 0 0 0 [True, True, True] opened)) 0 = None
    \<and> lastActivity (heap opened 0) + 45 * second < 0 + 30 * second * 2
    \<and> 0 + 30 * second * 2 \<le> lastActivity (heap opened 0) + 75 * second"
  using idle_session_timeout [of opened 0 0 0 True "[True]"]
  by (simp add: opened_eq eval_defs pings_before_timeout_def)


section \<open>Teardown is idempotent\<close>

lemma footprint_registry:
  "footprint w' = footprint w \<Longrightarrow> clients w' = clients w \<and> next_client w' = next_client w"
  by (simp add: footprint_def)

lemma iteration_registry [simp]:
  "clients (snd (iteration c inp w)) = clients w"
  "next_client (snd (iteration c inp w)) = next_client w"
  using footprint_registry [OF footprint_iteration] by simp_all

lemma candidateProduced_registry [simp]:
  "clients (snd (candidateProduced c cand ok w)) = clients w"
  "next_client (snd (candidateProduced c cand ok w)) = next_client w"
  using footprint_registry [OF footprint_candidateProduced] by simp_all

lemma tick_registry:
  "clients (snd (tick c n now ok w)) c' = None \<or> clients (snd (tick c n now ok w)) c' = clients w c'"
  "next_client (snd (tick c n now ok w)) = next_client w"
  by (simp_all add: tick_def Let_def)

lemma connect_registry:
  "c < next_client w \<Longrightarrow> clients (connect now ok w) c = clients w c"
  "next_client w \<le> next_client (connect now ok w)"
  by (simp_all add: connect_def Let_def)

lemma step_stays_removed:
  assumes "clients w c = None" and "c < next_client w"
  shows "clients (step w ev) c = None \<and> c < next_client (step w ev)"
proof (cases ev)
  case (Upgrade now ok)
  then show ?thesis
    using assms connect_registry(1) [of c w now ok] connect_registry(2) [of w now ok]
    by (simp add: step_def receive_def)
next
  case (Receive c' inp)
  then show ?thesis using assms
    by (simp add: step_def receive_def handler_exit_def case_prod_beta split: status.split)
next
  case (Tick c' now ok)
  then show ?thesis
    using assms tick_registry(1) [of c' _ now ok w c]
    by (auto simp add: step_def receive_def case_prod_beta tick_registry(2) split: option.split)
next
  case (Pong c' now)
  then show ?thesis using assms by (simp add: step_def pongHandler_def split: option.split)
next
  case (IceCandidate p cand ok)
  then show ?thesis using assms
    by (simp add: step_def case_prod_beta split: option.split res.split)
next
  case (ReadTimeout c' now)
  then show ?thesis using assms
    by (simp add: step_def receive_def handler_exit_def case_prod_beta split: status.split)
qed

lemma run_stays_removed:
  "clients w c = None \<Longrightarrow> c < next_client w \<Longrightarrow> clients (run w evs) c = None"
  unfolding run_def
  by (induction evs arbitrary: w) (simp_all add: step_stays_removed)

text \<open>
  Claim C3. Invoking the teardown operation twice on a registered session closes the
  transport exactly once, closes the negotiation handle (if the session has one) exactly
  once and removes the session from the registry; the second invocation only takes and
  releases the registry lock: it closes nothing, logs nothing and changes no state. The
  same holds for a later invocation from any trigger, whatever events came in between.
\<close>

theorem cleanupClient_idempotent:
  assumes "clients w c \<noteq> None" and "c < next_client w"
  shows "clients (cleanupClient c w) c = None
    \<and> count_list (trace (cleanupClient c (cleanupClient c w))) (ConnClose n)
        = count_list (trace w) (ConnClose n) + (if conn (heap w c) = Some n then 1 else 0)
    \<and> count_list (trace (cleanupClient c (cleanupClient c w))) (PcClose p)
        = count_list (trace w) (PcClose p) + (if pc (heap w c) = Some p then 1 else 0)
    \<and> cleanupClient c (cleanupClient c w)
        = emit (Unlock Registry) (emit (Lock Registry) (cleanupClient c w))
    \<and> cleanupClient c (run (cleanupClient c w) evs)
        = emit (Unlock Registry) (emit (Lock Registry) (run (cleanupClient c w) evs))"
proof -
  have "clients (run (cleanupClient c w) evs) c = None"
    using assms(2) by (simp add: run_stays_removed)
  then show ?thesis using assms(1)
    by (auto simp: cleanup_absent cleanup_trace_present split: option.splits)
qed

theorem cleanupClient_idempotent_witness:
  "clients negotiating 0 \<noteq> None \<and> 0 < next_client negotiating
    \<and> clients (cleanupClient 0 negotiating) 0 = None
    \<and> count_list (trace (cleanupClient 0 (cleanupClient 0 negotiating))) (ConnClose 0)
        = count_list (trace negotiating) (ConnClose 0) + (if conn (heap negotiating 0) = Some 0 then 1 else 0)
    \<and> count_list (trace (cleanupClient 0 (cleanupClient 0 negotiating))) (PcClose 0)
        = count_list (trace negotiating) (PcClose 0) + (if pc (heap negotiating 0) = Some 0 then 1 else 0)
    \<and> cleanupClient 0 (cleanupClient 0 negotiating)
        = emit (Unlock Registry) (emit (Lock Registry) (cleanupClient 0 negotiating))
    \<and> cleanupClient 0 (run (cleanupClient 0 negotiating) [Receive 0 ReadError])
        = emit (Unlock Registry) (emit (Lock Registry)
            (run (cleanupClient 0 negotiating) [Receive 0 ReadError]))
    \<and> count_list (trace (cleanupClient 0 (cleanupClient 0 negotiating))) (ConnClose 0) = 1
    \<and> count_list (trace (cleanupClient 0 (cleanupClient 0 negotiating))) (PcClose 0) = 1
    \<and> count_list (trace (run negotiating [Tick 0 (60 * second) True, Receive 0 ReadError]))
          (ConnClose 0) = 1
    \<and> count_list (trace (run negotiating [Tick 0 (60 * second) True, Receive 0 ReadError]))
          (PcClose 0) = 1"
  using cleanupClient_idempotent [of negotiating 0 0 0 "[Receive 0 ReadError]"]
  by (simp add: negotiating_eq eval_defs)

end
